theory Spec2Isabelle
  imports Complex_Main "HOL-Library.Char_ord" "HOL-Library.List_Lexorder" "HOL-Library.Multiset"
begin

section \<open>JavaScript values as the program observes them\<close>

text \<open>
  The program classifies arbitrary JavaScript values (parameters of type \<open>unknown\<close>).
  It observes a value only through \<open>typeof\<close>, \<open>Array.isArray\<close>, \<open>instanceof\<close> against
  seven built-in constructors, \<open>Number.isNaN\<close>, strict equality \<open>===\<close>, the \<open>name\<close>
  property of a callable, and, for arrays, \<open>length\<close>, indexing, iteration and the
  array methods \<open>every\<close>, \<open>map\<close>, \<open>push\<close> and \<open>sort\<close>.

  The values of type \<open>jsval\<close> are the values on which none of these observations
  raises an exception. The values on which one does are added in the type \<open>unknown\<close>
  below, for the question whether \<open>getRealType\<close> returns on every value.

  A number is a finite value, one of the two infinities, or NaN. The program does no
  arithmetic on the numbers it classifies, so finite doubles are taken as reals;
  \<open>+0\<close> and \<open>-0\<close> are one value, as they are for \<open>===\<close>.
\<close>

datatype jsnum = Finite real | PosInfinity | NegInfinity | NaN

text \<open>The built-in constructors that \<open>getRealType\<close> tests with \<open>instanceof\<close>.\<close>

datatype ctor = C_Date | C_RegExp | C_Set | C_Map | C_Error | C_ArrayBuffer | C_Blob

text \<open>
  What the program can see of an object that is not an array: the constructors it is an
  instance of (its prototype chain), whether it is callable, and its \<open>name\<close> property
  when that is a string.
\<close>

record objinfo =
  instof :: "ctor set"
  callable :: bool
  fname :: "string option"

text \<open>
  An array is a reference into the store of arrays; any other object carries its
  identity and what can be observed of it. Arrays and other objects are different
  objects, so the two kinds of reference never coincide.
\<close>

type_synonym addr = nat

datatype jsval =
    JUndefined
  | JNull
  | JBool bool
  | JNum jsnum
  | JStr string
  | JBigInt int
  | JSymbol nat
  | JArray addr
  | JObject nat objinfo

text \<open>
  The store holds every array, by address. An array is a list of slots, one for each
  index below its length: a slot holds a value, or it is a hole (\<open>None\<close>), as in
  \<open>[ , 1]\<close> or \<open>new Array(3)\<close>. A new array takes the next free address.
\<close>

type_synonym slot = "jsval option"

type_synonym store = "slot list list"

definition slots :: "store \<Rightarrow> addr \<Rightarrow> slot list" where
  "slots s a = (if a < length s then s ! a else [])"

text \<open>
  Reading an index gives the value of the slot, and \<open>undefined\<close> at a hole. The
  elements of an array are what its indices read, in order: this is what \<open>xs[i]\<close>,
  \<open>for (const el of xs)\<close> and \<open>new Set(xs)\<close> see. The methods \<open>every\<close> and \<open>map\<close>
  look at the slots instead and pass over the holes.
\<close>

fun read_slot :: "slot \<Rightarrow> jsval" where
  "read_slot None = JUndefined"
| "read_slot (Some v) = v"

definition elems :: "store \<Rightarrow> addr \<Rightarrow> jsval list" where
  "elems s a = map read_slot (slots s a)"

text \<open>An array without holes, from its values.\<close>

definition dense :: "jsval list \<Rightarrow> slot list" where
  "dense xs = map Some xs"

definition alloc :: "store \<Rightarrow> slot list \<Rightarrow> addr \<times> store" where
  "alloc s xs = (length s, s @ [xs])"

definition push :: "store \<Rightarrow> addr \<Rightarrow> jsval \<Rightarrow> store" where
  "push s a v = s[a := slots s a @ [Some v]]"

text \<open>\<open>xs[i]\<close> on the elements: reading past the end of an array gives \<open>undefined\<close>.\<close>

definition index_js :: "jsval list \<Rightarrow> nat \<Rightarrow> jsval" where
  "index_js xs i = (if i < length xs then xs ! i else JUndefined)"

subsection \<open>The observations\<close>

text \<open>\<open>a === b\<close> on numbers: NaN differs from everything, itself included.\<close>

fun num_eq :: "jsnum \<Rightarrow> jsnum \<Rightarrow> bool" where
  "num_eq NaN _ = False"
| "num_eq _ NaN = False"
| "num_eq x y = (x = y)"

text \<open>
  \<open>a === b\<close>: no coercion; values of different types differ; objects and symbols are
  compared by identity.
\<close>

fun strict_eq :: "jsval \<Rightarrow> jsval \<Rightarrow> bool" where
  "strict_eq JUndefined JUndefined = True"
| "strict_eq JNull JNull = True"
| "strict_eq (JBool x) (JBool y) = (x = y)"
| "strict_eq (JNum x) (JNum y) = num_eq x y"
| "strict_eq (JStr x) (JStr y) = (x = y)"
| "strict_eq (JBigInt x) (JBigInt y) = (x = y)"
| "strict_eq (JSymbol x) (JSymbol y) = (x = y)"
| "strict_eq (JArray x) (JArray y) = (x = y)"
| "strict_eq (JObject x _) (JObject y _) = (x = y)"
| "strict_eq _ _ = False"

text \<open>\<open>typeof v\<close>.\<close>

fun typeof :: "jsval \<Rightarrow> string" where
  "typeof JUndefined = ''undefined''"
| "typeof JNull = ''object''"
| "typeof (JBool _) = ''boolean''"
| "typeof (JNum _) = ''number''"
| "typeof (JStr _) = ''string''"
| "typeof (JBigInt _) = ''bigint''"
| "typeof (JSymbol _) = ''symbol''"
| "typeof (JArray _) = ''object''"
| "typeof (JObject _ info) = (if callable info then ''function'' else ''object'')"

text \<open>\<open>Array.isArray(v)\<close>.\<close>

fun isArray :: "jsval \<Rightarrow> bool" where
  "isArray (JArray _) = True"
| "isArray _ = False"

text \<open>
  \<open>v instanceof C\<close>: false for every primitive. The seven constructors are globals of
  the environment the program runs in (\<open>Blob\<close> is one in browsers and in Node 18 and
  later).
\<close>

fun instanceof :: "jsval \<Rightarrow> ctor \<Rightarrow> bool" where
  "instanceof (JObject _ info) c = (c \<in> instof info)"
| "instanceof _ _ = False"

text \<open>\<open>Number.isNaN(v)\<close>: true for the number NaN only.\<close>

fun isNaN :: "jsval \<Rightarrow> bool" where
  "isNaN (JNum NaN) = True"
| "isNaN _ = False"

text \<open>\<open>v.name === n\<close>, read where \<open>v\<close> is known to be callable.\<close>

fun name_is :: "jsval \<Rightarrow> string \<Rightarrow> bool" where
  "name_is (JObject _ info) n = (fname info = Some n)"
| "name_is _ _ = False"

text \<open>\<open>!v\<close> is \<open>\<not> truthy v\<close>: the falsy values are undefined, null, false, 0, NaN, the
  empty string and \<open>0n\<close>.\<close>

fun truthy :: "jsval \<Rightarrow> bool" where
  "truthy JUndefined = False"
| "truthy JNull = False"
| "truthy (JBool b) = b"
| "truthy (JNum NaN) = False"
| "truthy (JNum (Finite x)) = (x \<noteq> 0)"
| "truthy (JNum _) = True"
| "truthy (JStr x) = (x \<noteq> [])"
| "truthy (JBigInt x) = (x \<noteq> 0)"
| "truthy _ = True"

text \<open>
  An ordinary object that is not callable and is an instance of none of the seven
  constructors: an object literal \<open>{}\<close>, or a boxed string \<open>new String('12')\<close>.
\<close>

definition ordinary_object :: "nat \<Rightarrow> jsval" where
  "ordinary_object i = JObject i \<lparr>instof = {}, callable = False, fname = None\<rparr>"

section \<open>The type classifier\<close>

definition getType :: "jsval \<Rightarrow> string" where
  "getType v = typeof v"

text \<open>\<open>getRealType\<close> on the values on which no check raises.\<close>

definition getRealType :: "jsval \<Rightarrow> string" where
  "getRealType v =
     (if isArray v then ''array''
      else if instanceof v C_Date then ''date''
      else if instanceof v C_RegExp then ''regexp''
      else if instanceof v C_Set then ''set''
      else if instanceof v C_Map then ''map''
      else if instanceof v C_Error then ''error''
      else if instanceof v C_ArrayBuffer then ''buffer''
      else if instanceof v C_Blob then ''blob''
      else if isNaN v then ''NaN''
      else if strict_eq v JNull then ''null''
      else if strict_eq v (JNum PosInfinity) then ''Infinity''
      else if typeof v = ''function'' \<and> name_is v ''GeneratorFunction'' then ''generator function''
      else typeof v)"

text \<open>
  The ordered discriminations as the specification lists them: twelve checks, each with
  the tag it gives, tried from the top; the first that holds decides, and a value that
  passes none gets its coarse tag.
\<close>

definition discriminations :: "((jsval \<Rightarrow> bool) \<times> string) list" where
  "discriminations =
     [(isArray, ''array''),
      (\<lambda>v. instanceof v C_Date, ''date''),
      (\<lambda>v. instanceof v C_RegExp, ''regexp''),
      (\<lambda>v. instanceof v C_Set, ''set''),
      (\<lambda>v. instanceof v C_Map, ''map''),
      (\<lambda>v. instanceof v C_Error, ''error''),
      (\<lambda>v. instanceof v C_ArrayBuffer, ''buffer''),
      (\<lambda>v. instanceof v C_Blob, ''blob''),
      (isNaN, ''NaN''),
      (\<lambda>v. v = JNull, ''null''),
      (\<lambda>v. v = JNum PosInfinity, ''Infinity''),
      (\<lambda>v. getType v = ''function'' \<and> name_is v ''GeneratorFunction'', ''generator function'')]"

fun first_match :: "((jsval \<Rightarrow> bool) \<times> string) list \<Rightarrow> jsval \<Rightarrow> string" where
  "first_match [] v = getType v"
| "first_match ((check, tag) # rest) v = (if check v then tag else first_match rest v)"

definition realType_spec :: "jsval \<Rightarrow> string" where
  "realType_spec v = first_match discriminations v"

subsection \<open>Values on which a check raises\<close>

text \<open>
  The parameter of \<open>getRealType\<close> has type \<open>unknown\<close>, and some values make one of its
  checks raise instead of answering:
  \<^item> a revoked Proxy: \<open>Array.isArray\<close> raises a TypeError, and so do \<open>instanceof\<close> and
    reading \<open>name\<close>;
  \<^item> a Proxy whose traps throw: \<open>Array.isArray\<close> answers for its target, \<open>instanceof\<close>
    calls the \<open>getPrototypeOf\<close> trap and reading \<open>name\<close> calls the \<open>get\<close> trap;
  \<^item> a function whose \<open>name\<close> is a getter that throws.
  \<open>typeof\<close>, \<open>Number.isNaN\<close> and \<open>===\<close> raise on no value.
\<close>

datatype error = TypeError | Thrown

datatype unknown =
    Ordinary jsval
  | RevokedProxy (target_callable: bool)
  | ThrowingProxy (target_is_array: bool) (target_callable: bool)
  | ThrowingNameGetter "ctor set"

fun isArray_unknown :: "unknown \<Rightarrow> error + bool" where
  "isArray_unknown (Ordinary v) = Inr (isArray v)"
| "isArray_unknown (RevokedProxy _) = Inl TypeError"
| "isArray_unknown (ThrowingProxy arr _) = Inr arr"
| "isArray_unknown (ThrowingNameGetter _) = Inr False"

fun instanceof_unknown :: "unknown \<Rightarrow> ctor \<Rightarrow> error + bool" where
  "instanceof_unknown (Ordinary v) c = Inr (instanceof v c)"
| "instanceof_unknown (RevokedProxy _) c = Inl TypeError"
| "instanceof_unknown (ThrowingProxy _ _) c = Inl Thrown"
| "instanceof_unknown (ThrowingNameGetter cs) c = Inr (c \<in> cs)"

fun typeof_unknown :: "unknown \<Rightarrow> string" where
  "typeof_unknown (Ordinary v) = typeof v"
| "typeof_unknown (RevokedProxy f) = (if f then ''function'' else ''object'')"
| "typeof_unknown (ThrowingProxy _ f) = (if f then ''function'' else ''object'')"
| "typeof_unknown (ThrowingNameGetter _) = ''function''"

fun name_is_unknown :: "unknown \<Rightarrow> string \<Rightarrow> error + bool" where
  "name_is_unknown (Ordinary v) n = Inr (name_is v n)"
| "name_is_unknown (RevokedProxy _) n = Inl TypeError"
| "name_is_unknown (ThrowingProxy _ _) n = Inl Thrown"
| "name_is_unknown (ThrowingNameGetter _) n = Inl Thrown"

text \<open>
  The checks that raise on no value. A Proxy and a function are objects: none is NaN,
  null or Infinity.
\<close>

fun isNaN_unknown :: "unknown \<Rightarrow> bool" where
  "isNaN_unknown (Ordinary v) = isNaN v"
| "isNaN_unknown _ = False"

fun strict_eq_unknown :: "unknown \<Rightarrow> jsval \<Rightarrow> bool" where
  "strict_eq_unknown (Ordinary v) w = strict_eq v w"
| "strict_eq_unknown _ w = False"

text \<open>
  One branch \<open>if (check) return tag; else ...\<close> of the chain: a check that raises ends
  the call with the exception.
\<close>

definition branch :: "error + bool \<Rightarrow> string \<Rightarrow> error + string \<Rightarrow> error + string" where
  "branch check tag rest =
     (case check of Inl e \<Rightarrow> Inl e | Inr True \<Rightarrow> Inr tag | Inr False \<Rightarrow> rest)"

text \<open>
  \<open>getRealType\<close> on every value of type \<open>unknown\<close>, with an exception as a result.
  In the last check \<open>name\<close> is read only when \<open>typeof\<close> gave \<open>'function'\<close>.
\<close>

definition getRealType_unknown :: "unknown \<Rightarrow> error + string" where
  "getRealType_unknown v =
     branch (isArray_unknown v) ''array''
    (branch (instanceof_unknown v C_Date) ''date''
    (branch (instanceof_unknown v C_RegExp) ''regexp''
    (branch (instanceof_unknown v C_Set) ''set''
    (branch (instanceof_unknown v C_Map) ''map''
    (branch (instanceof_unknown v C_Error) ''error''
    (branch (instanceof_unknown v C_ArrayBuffer) ''buffer''
    (branch (instanceof_unknown v C_Blob) ''blob''
    (branch (Inr (isNaN_unknown v)) ''NaN''
    (branch (Inr (strict_eq_unknown v JNull)) ''null''
    (branch (Inr (strict_eq_unknown v (JNum PosInfinity))) ''Infinity''
    (branch (if typeof_unknown v = ''function''
             then name_is_unknown v ''GeneratorFunction'' else Inr False)
       ''generator function''
    (Inr (typeof_unknown v)))))))))))))"

section \<open>The equality helper\<close>

text \<open>The slots and the elements of an array value, read from the store.\<close>

fun arr_slots :: "store \<Rightarrow> jsval \<Rightarrow> slot list" where
  "arr_slots s (JArray a) = slots s a"
| "arr_slots s _ = []"

fun arr_elems :: "store \<Rightarrow> jsval \<Rightarrow> jsval list" where
  "arr_elems s (JArray a) = elems s a"
| "arr_elems s _ = []"

text \<open>
  \<open>xs.every(callback)\<close>: the callback gets the element and its index, at the indices
  that hold a value, in order; a hole is passed over without a call. The first falsy
  answer ends the loop with false. A callback that does not return (\<open>None\<close>) keeps
  \<open>every\<close> from returning.
\<close>

fun every_from :: "nat \<Rightarrow> (jsval \<Rightarrow> nat \<Rightarrow> bool option) \<Rightarrow> slot list \<Rightarrow> bool option" where
  "every_from index callback [] = Some True"
| "every_from index callback (None # xs) = every_from (Suc index) callback xs"
| "every_from index callback (Some element # xs) =
     (case callback element index of
        None \<Rightarrow> None
      | Some False \<Rightarrow> Some False
      | Some True \<Rightarrow> every_from (Suc index) callback xs)"

definition every :: "(jsval \<Rightarrow> nat \<Rightarrow> bool option) \<Rightarrow> slot list \<Rightarrow> bool option" where
  "every callback xs = every_from 0 callback xs"

text \<open>
  \<open>areEqual\<close> calls itself on the elements of its operands. Arrays in the store can
  contain themselves, and on such operands the source recurses until the call stack is
  exhausted; the first argument bounds the depth of nested calls, and \<open>None\<close> is a call
  that did not return within it.
\<close>

fun areEqual :: "nat \<Rightarrow> store \<Rightarrow> jsval \<Rightarrow> jsval \<Rightarrow> bool option" where
  "areEqual 0 s a b = None"
| "areEqual (Suc n) s a b =
     (if isArray a \<and> isArray b then
        (if length (arr_elems s a) = length (arr_elems s b)
         then every (\<lambda>element index. areEqual n s element (index_js (arr_elems s b) index))
                (arr_slots s a)
         else Some False)
      else Some (strict_eq a b))"

text \<open>
  A value is nested within depth \<open>n\<close> when no chain of arrays inside arrays that starts
  at it is longer than \<open>n\<close>. Every array built from literals is nested within some
  depth; an array that contains itself is nested within none.
\<close>

fun nested_within :: "nat \<Rightarrow> store \<Rightarrow> jsval \<Rightarrow> bool" where
  "nested_within 0 s v = (\<not> isArray v)"
| "nested_within (Suc n) s v = list_all (nested_within n s) (arr_elems s v)"


section \<open>The list analyzers\<close>

text \<open>
  A parameter \<open>arr: unknown[]\<close> is the address of an array. A function that builds an
  array returns its address with the store that holds it.

  \<open>arr.map(getType)\<close> builds a new array of the same length: the tag of the value
  where \<open>arr\<close> holds one, and a hole where \<open>arr\<close> has a hole.
\<close>

definition getTypesOfItems :: "store \<Rightarrow> addr \<Rightarrow> addr \<times> store" where
  "getTypesOfItems s arr = alloc s (map (map_option (\<lambda>v. JStr (getType v))) (slots s arr))"

text \<open>
  \<open>new Set(xs)\<close> takes the elements of \<open>xs\<close> as iteration gives them, so a hole comes
  in as \<open>undefined\<close>; \<open>size\<close> is the number of distinct values. A set holds each value
  once under SameValueZero, which on the values of this model is equality.
\<close>

definition allItemsHaveTheSameType :: "store \<Rightarrow> addr \<Rightarrow> bool" where
  "allItemsHaveTheSameType s arr =
     (if length (elems s arr) > 0 then
        (let (types, s') = getTypesOfItems s arr;
             typesSet = set (elems s' types)
         in card typesSet = 1)
      else True)"

text \<open>
  \<open>getRealTypesOfItems\<close> starts from a new empty array and pushes the tag of every
  element of \<open>arr\<close>, in order. The loop body writes to the new array only, so the loop
  runs over the elements \<open>arr\<close> has when it starts.
\<close>

definition getRealTypesOfItems :: "store \<Rightarrow> addr \<Rightarrow> addr \<times> store" where
  "getRealTypesOfItems s arr =
     (let (realTypesArr, s0) = alloc s []
      in (realTypesArr,
          foldl (\<lambda>s' el. push s' realTypesArr (JStr (getRealType el))) s0 (elems s arr)))"

definition everyItemHasAUniqueRealType :: "store \<Rightarrow> addr \<Rightarrow> bool" where
  "everyItemHasAUniqueRealType s arr =
     (if length (elems s arr) > 0 then
        (let (realTypes, s') = getRealTypesOfItems s arr;
             realTypesSet = set (elems s' realTypes)
         in card realTypesSet = length (elems s' arr))
      else True)"

subsection \<open>Counting\<close>

text \<open>
  \<open>realTypesArr\<close> is a \<open>string[]\<close>: every element is a string. The default \<open>sort()\<close>
  orders strings by their code units, which is the lexicographic order of the
  character codes; it sorts the array in place, the values first and the holes after
  them.
\<close>

fun str_of :: "jsval \<Rightarrow> string" where
  "str_of (JStr x) = x"
| "str_of _ = []"

definition sort_strings :: "slot list \<Rightarrow> slot list" where
  "sort_strings xs =
     map Some (sort_key str_of (map the (filter (\<lambda>x. x \<noteq> None) xs)))
     @ filter (\<lambda>x. x = None) xs"

text \<open>
  \<open>realTypesCounter\<close> is an object used as a dictionary. \<open>Object.entries\<close> lists the
  properties in the order of their creation (no tag is an array index, which would be
  listed first, and no tag names a property of \<open>Object.prototype\<close>, which a lookup
  would find), so the object is an association list: assigning to an existing key keeps
  its place, a new key goes to the end.
\<close>

type_synonym counter = "(string \<times> nat) list"

fun set_prop :: "counter \<Rightarrow> string \<Rightarrow> nat \<Rightarrow> counter" where
  "set_prop [] k v = [(k, v)]"
| "set_prop ((k', v') # ps) k v =
     (if k' = k then (k, v) # ps else (k', v') # set_prop ps k v)"

definition count_step :: "counter \<Rightarrow> string \<Rightarrow> counter" where
  "count_step realTypesCounter realType =
     (let count = map_of realTypesCounter realType
      in set_prop realTypesCounter realType
           (case count of Some c \<Rightarrow> c + 1 | None \<Rightarrow> 1))"

text \<open>
  \<open>countRealTypes\<close> tests its argument with \<open>!arr\<close>, so the argument is any value here.
  The declared type admits arrays (and, unchecked, null and undefined); for a truthy
  value that is not an array the result is \<open>None\<close>: what the source does there depends
  on the iteration protocol, which is outside this model.
\<close>

definition countRealTypes :: "store \<Rightarrow> jsval \<Rightarrow> counter option \<times> store" where
  "countRealTypes s arr =
     (if \<not> truthy arr then (Some [], s)
      else case arr of
        JArray a \<Rightarrow>
          (let (realTypesArr, s1) = getRealTypesOfItems s a;
               s2 = s1[realTypesArr := sort_strings (slots s1 realTypesArr)];
               realTypesCounter = foldl count_step [] (map str_of (elems s2 realTypesArr))
           in (Some realTypesCounter, s2))
      | _ \<Rightarrow> (None, s))"

section \<open>Properties of the classifier\<close>

lemma strict_eq_null: "strict_eq v JNull \<longleftrightarrow> v = JNull"
  by (cases v) simp_all

lemma strict_eq_infinity: "strict_eq v (JNum PosInfinity) \<longleftrightarrow> v = JNum PosInfinity"
proof (cases v)
  case (JNum x)
  then show ?thesis by (cases x) simp_all
qed simp_all

lemma first_match_decides:
  "i < length cs \<Longrightarrow> fst (cs ! i) v \<Longrightarrow> (\<forall>j < i. \<not> fst (cs ! j) v)
   \<Longrightarrow> first_match cs v = snd (cs ! i)"
proof (induction cs arbitrary: i)
  case Nil
  then show ?case by simp
next
  case (Cons c cs)
  obtain check tag where c: "c = (check, tag)" by (cases c)
  show ?case
  proof (cases i)
    case 0
    with Cons.prems c show ?thesis by simp
  next
    case (Suc k)
    have "\<not> check v" using Cons.prems(3) Suc c by auto
    moreover have "first_match cs v = snd (cs ! k)"
    proof (rule Cons.IH)
      show "k < length cs" using Cons.prems(1) Suc by simp
      show "fst (cs ! k) v" using Cons.prems(2) Suc by simp
      show "\<forall>j < k. \<not> fst (cs ! j) v" using Cons.prems(3) Suc by auto
    qed
    ultimately show ?thesis using c Suc by simp
  qed
qed

lemma first_match_fallback:
  "(\<forall>i < length cs. \<not> fst (cs ! i) v) \<Longrightarrow> first_match cs v = getType v"
proof (induction cs)
  case Nil
  then show ?case by simp
next
  case (Cons c cs)
  obtain check tag where c: "c = (check, tag)" by (cases c)
  have "\<not> check v" using Cons.prems c by auto
  moreover have "first_match cs v = getType v"
    using Cons.prems by (intro Cons.IH) auto
  ultimately show ?case using c by simp
qed

lemma getRealType_refines: "getRealType v = realType_spec v"
  by (simp add: getRealType_def realType_spec_def discriminations_def getType_def
      strict_eq_null strict_eq_infinity)

lemma branch_answer: "branch (Inr b) tag rest = (if b then Inr tag else rest)"
  by (simp add: branch_def)

lemma branch_raise: "branch (Inl e) tag rest = Inl e"
  by (simp add: branch_def)

lemma getRealType_unknown_Ordinary: "getRealType_unknown (Ordinary v) = Inr (getRealType v)"
  by (simp add: getRealType_unknown_def getRealType_def branch_answer)

text \<open>
  The other values of type \<open>unknown\<close>: the call raises unless an earlier check answers
  first.
\<close>

lemma getRealType_unknown_raises:
  "getRealType_unknown (RevokedProxy f) = Inl TypeError"
  "getRealType_unknown (ThrowingProxy False f) = Inl Thrown"
  "getRealType_unknown (ThrowingProxy True f) = Inr ''array''"
  "getRealType_unknown (ThrowingNameGetter {}) = Inl Thrown"
  "getRealType_unknown (ThrowingNameGetter {C_Error}) = Inr ''error''"
  by (simp_all add: getRealType_unknown_def branch_answer branch_raise)

text \<open>
  Every tag is one of twenty strings. None of them is an array index and none names a
  property that an empty object inherits, which is what the counter object of
  \<open>countRealTypes\<close> relies on.
\<close>

lemma typeof_tags:
  "typeof v \<in> {''undefined'', ''object'', ''boolean'', ''number'', ''string'', ''bigint'',
                ''symbol'', ''function''}"
  by (cases v) simp_all

lemma getRealType_tags:
  "getRealType v \<in> {''array'', ''date'', ''regexp'', ''set'', ''map'', ''error'', ''buffer'',
                     ''blob'', ''NaN'', ''null'', ''Infinity'', ''generator function'',
                     ''undefined'', ''object'', ''boolean'', ''number'', ''string'', ''bigint'',
                     ''symbol'', ''function''}"
proof -
  have "getRealType v \<in> {''array'', ''date'', ''regexp'', ''set'', ''map'', ''error'', ''buffer'',
                     ''blob'', ''NaN'', ''null'', ''Infinity'', ''generator function''}
        \<or> getRealType v = typeof v"
    by (simp add: getRealType_def)
  then show ?thesis using typeof_tags [of v] by auto
qed

text \<open>
  Claim C1, as amended. On every value on which no check raises, \<open>getRealType\<close> returns,
  and what it returns is the first-match evaluation of the twelve discriminations in the
  order array, date, regexp, set, map, error, buffer, blob, NaN, null, Infinity,
  generator function: the first check that holds gives the tag, and a value that passes
  no check gets its coarse tag \<open>getType\<close>. The function is not total on the type
  \<open>unknown\<close>: on a revoked Proxy the first check raises a TypeError.
\<close>

theorem getRealType_first_match:
  "getRealType_unknown (Ordinary v) = Inr (realType_spec v) \<and>
   getRealType v = realType_spec v \<and>
   map snd discriminations =
     [''array'', ''date'', ''regexp'', ''set'', ''map'', ''error'', ''buffer'', ''blob'',
      ''NaN'', ''null'', ''Infinity'', ''generator function''] \<and>
   (\<forall>i < length discriminations.
      fst (discriminations ! i) v \<and> (\<forall>j < i. \<not> fst (discriminations ! j) v)
      \<longrightarrow> getRealType_unknown (Ordinary v) = Inr (snd (discriminations ! i))) \<and>
   ((\<forall>i < length discriminations. \<not> fst (discriminations ! i) v)
      \<longrightarrow> getRealType_unknown (Ordinary v) = Inr (getType v)) \<and>
   getRealType_unknown (RevokedProxy f) = Inl TypeError"
proof (intro conjI allI impI)
  show "getRealType_unknown (Ordinary v) = Inr (realType_spec v)"
    by (simp add: getRealType_unknown_Ordinary getRealType_refines)
  show "getRealType v = realType_spec v" by (rule getRealType_refines)
  show "map snd discriminations =
     [''array'', ''date'', ''regexp'', ''set'', ''map'', ''error'', ''buffer'', ''blob'',
      ''NaN'', ''null'', ''Infinity'', ''generator function'']"
    by (simp add: discriminations_def)
  show "getRealType_unknown (RevokedProxy f) = Inl TypeError"
    by (rule getRealType_unknown_raises)
next
  fix i
  assume "i < length discriminations"
    and "fst (discriminations ! i) v \<and> (\<forall>j < i. \<not> fst (discriminations ! j) v)"
  then show "getRealType_unknown (Ordinary v) = Inr (snd (discriminations ! i))"
    using first_match_decides [of i discriminations v]
    by (simp add: getRealType_unknown_Ordinary getRealType_refines realType_spec_def)
next
  assume "\<forall>i < length discriminations. \<not> fst (discriminations ! i) v"
  then show "getRealType_unknown (Ordinary v) = Inr (getType v)"
    using first_match_fallback [of discriminations v]
    by (simp add: getRealType_unknown_Ordinary getRealType_refines realType_spec_def)
qed

theorem getRealType_first_match_witness:
  "getRealType_unknown
     (Ordinary (JObject 0 \<lparr>instof = {C_Date, C_RegExp}, callable = False, fname = None\<rparr>))
     = Inr ''date'' \<and>
   getRealType_unknown (Ordinary (JBool True)) = Inr (getType (JBool True)) \<and>
   getType (JBool True) = ''boolean''"
proof -
  let ?d = "JObject 0 \<lparr>instof = {C_Date, C_RegExp}, callable = False, fname = None\<rparr>"
  have len: "(1::nat) < length discriminations" by (simp add: discriminations_def)
  have hit: "fst (discriminations ! 1) ?d \<and> (\<forall>j < 1. \<not> fst (discriminations ! j) ?d)"
    by (simp add: discriminations_def)
  have "getRealType_unknown (Ordinary ?d) = Inr (snd (discriminations ! 1))"
    using getRealType_first_match [of ?d] len hit by blast
  then have 1: "getRealType_unknown (Ordinary ?d) = Inr ''date''"
    by (simp add: discriminations_def)
  have "list_all (\<lambda>c. \<not> fst c (JBool True)) discriminations"
    by (simp add: discriminations_def getType_def)
  then have none: "\<forall>i < length discriminations. \<not> fst (discriminations ! i) (JBool True)"
    by (simp add: list_all_length)
  have 2: "getRealType_unknown (Ordinary (JBool True)) = Inr (getType (JBool True))"
    using getRealType_first_match [of "JBool True"] none by blast
  show ?thesis using 1 2 by (simp add: getType_def)
qed

text \<open>
  The claim as it was stated fails on a revoked Proxy: the call raises a TypeError,
  where the claim has it return the coarse tag, which is \<open>'object'\<close>.
\<close>

theorem getRealType_not_total:
  "getRealType_unknown (RevokedProxy False) = Inl TypeError \<and>
   typeof_unknown (RevokedProxy False) = ''object''"
  by (simp add: getRealType_unknown_def branch_raise)

text \<open>
  Claim C8. Only positive infinity is refined: \<open>getRealType(Infinity)\<close> is
  \<open>'Infinity'\<close>, while \<open>-Infinity\<close> is not strictly equal to \<open>Infinity\<close>, passes no
  discrimination and gets the coarse tag \<open>'number'\<close>.
\<close>

theorem getRealType_infinities:
  "getRealType (JNum PosInfinity) = ''Infinity'' \<and>
   getRealType (JNum NegInfinity) = ''number'' \<and>
   strict_eq (JNum NegInfinity) (JNum PosInfinity) = False \<and>
   list_all (\<lambda>(check, tag). check (JNum NegInfinity) = False) discriminations \<and>
   getType (JNum NegInfinity) = ''number''"
  by (simp add: getRealType_def discriminations_def getType_def)

section \<open>Properties of the store and of counting\<close>

lemma slots_append_new: "slots (s @ [xs]) (length s) = xs"
  by (simp add: slots_def)

lemma slots_append_old: "a < length s \<Longrightarrow> slots (s @ [xs]) a = slots s a"
  by (simp add: slots_def nth_append)

lemma elems_append_new: "elems (s @ [xs]) (length s) = map read_slot xs"
  by (simp add: elems_def slots_append_new)

lemma elems_append_old: "a < length s \<Longrightarrow> elems (s @ [xs]) a = elems s a"
  by (simp add: elems_def slots_append_old)

lemma read_dense: "map read_slot (dense xs) = xs"
  by (induction xs) (simp_all add: dense_def)

lemma dense_append: "dense (xs @ ys) = dense xs @ dense ys"
  by (simp add: dense_def)

lemma push_new: "push (s @ [acc]) (length s) v = s @ [acc @ [Some v]]"
  by (simp add: push_def slots_append_new)

lemma foldl_push_new:
  "foldl (\<lambda>s' el. push s' (length s) (f el)) (s @ [acc]) xs = s @ [acc @ dense (map f xs)]"
  by (induction xs arbitrary: acc) (simp_all add: push_new dense_def)

lemma getRealTypesOfItems_eq:
  "getRealTypesOfItems s a
     = (length s, s @ [dense (map (\<lambda>v. JStr (getRealType v)) (elems s a))])"
  using foldl_push_new [of s "\<lambda>el. JStr (getRealType el)" "[]" "elems s a"]
  by (simp add: getRealTypesOfItems_def alloc_def)

lemma getTypesOfItems_eq:
  "getTypesOfItems s a
     = (length s, s @ [map (map_option (\<lambda>v. JStr (getType v))) (slots s a)])"
  by (simp add: getTypesOfItems_def alloc_def)

lemma insort_key_map:
  "insort_key f (g x) (map g xs) = map g (insort_key (\<lambda>y. f (g y)) x xs)"
  by (induction xs) simp_all

lemma sort_key_map: "sort_key f (map g xs) = map g (sort_key (\<lambda>y. f (g y)) xs)"
  by (induction xs) (simp_all add: insort_key_map)

lemma sort_strings_tags: "sort_strings (dense (map JStr ts)) = dense (map JStr (sort ts))"
proof -
  have 1: "filter (\<lambda>x. x \<noteq> None) (dense ys) = dense ys" for ys :: "jsval list"
    by (induction ys) (simp_all add: dense_def)
  have 2: "filter (\<lambda>x. x = None) (dense ys) = []" for ys :: "jsval list"
    by (induction ys) (simp_all add: dense_def)
  have 3: "map the (dense ys) = ys" for ys :: "jsval list"
    by (induction ys) (simp_all add: dense_def)
  have "sort_strings (dense (map JStr ts)) = map Some (sort_key str_of (map JStr ts))"
    unfolding sort_strings_def 1 2 3 by simp
  also have "\<dots> = map Some (map JStr (sort ts))" by (simp add: sort_key_map)
  finally show ?thesis by (simp add: dense_def)
qed

lemma map_str_of_tags: "map str_of (map JStr ts) = ts"
  by (induction ts) simp_all

lemma countRealTypes_array:
  "countRealTypes s (JArray a) =
     (Some (foldl count_step [] (sort (map getRealType (elems s a)))),
      s @ [dense (map JStr (sort (map getRealType (elems s a))))])"
proof -
  have m: "map (\<lambda>v. JStr (getRealType v)) xs = map JStr (map getRealType xs)" for xs
    by simp
  show ?thesis
    by (simp add: countRealTypes_def getRealTypesOfItems_eq slots_append_new elems_append_new
        m sort_strings_tags read_dense map_str_of_tags del: map_map)
qed
















text \<open>
  Claim C9. \<open>countRealTypes\<close> does not change its input: the array it is given, and
  every other array that exists before the call, has the same elements in the same
  order after it, and the same holes. The only change to the store is one new array,
  the one \<open>getRealTypesOfItems\<close> built, holding the sorted tags: the in-place sort works
  on that array alone.
\<close>

theorem countRealTypes_frame:
  "take (length s) (snd (countRealTypes s (JArray a))) = s \<and>
   (\<forall>b < length s. elems (snd (countRealTypes s (JArray a))) b = elems s b) \<and>
   (\<forall>b < length s. slots (snd (countRealTypes s (JArray a))) b = slots s b) \<and>
   elems (snd (countRealTypes s (JArray a))) a = elems s a \<and>
   snd (countRealTypes s (JArray a))
     = s @ [dense (map JStr (sort (map getRealType (elems s a))))]"
proof -
  let ?tags = "dense (map JStr (sort (map getRealType (elems s a))))"
  have 4: "snd (countRealTypes s (JArray a)) = s @ [?tags]"
    by (simp add: countRealTypes_array)
  have 1: "take (length s) (snd (countRealTypes s (JArray a))) = s" by (simp add: 4)
  have 2: "\<forall>b < length s. elems (snd (countRealTypes s (JArray a))) b = elems s b"
    by (simp add: 4 elems_append_old)
  have 5: "\<forall>b < length s. slots (snd (countRealTypes s (JArray a))) b = slots s b"
    by (simp add: 4 slots_append_old)
  have 3: "elems (snd (countRealTypes s (JArray a))) a = elems s a"
  proof (cases "a < length s")
    case True
    then show ?thesis by (simp add: 4 elems_append_old)
  next
    case False
    then have e: "elems s a = []" by (simp add: elems_def slots_def)
    then have "elems (s @ [?tags]) a = []"
      using False by (simp add: elems_def slots_def nth_append dense_def)
    with e show ?thesis by (simp add: 4)
  qed
  show ?thesis using 1 2 3 4 5 by blast
qed

theorem countRealTypes_frame_witness:
  "elems (snd (countRealTypes [dense [ordinary_object 0, JNull, JBool True]] (JArray 0))) 0
     = [ordinary_object 0, JNull, JBool True] \<and>
   snd (countRealTypes [dense [ordinary_object 0, JNull, JBool True]] (JArray 0))
     = [dense [ordinary_object 0, JNull, JBool True],
        dense [JStr ''boolean'', JStr ''null'', JStr ''object'']]"
proof -
  let ?s = "[dense [ordinary_object 0, JNull, JBool True]]"
  note f = countRealTypes_frame [of ?s 0]
  have "elems (snd (countRealTypes ?s (JArray 0))) 0 = elems ?s 0"
    using f by blast
  moreover have "snd (countRealTypes ?s (JArray 0))
     = ?s @ [dense (map JStr (sort (map getRealType (elems ?s 0))))]"
    using f by blast
  ultimately have "elems (snd (countRealTypes ?s (JArray 0))) 0 = elems ?s 0 \<and>
     snd (countRealTypes ?s (JArray 0))
       = ?s @ [dense (map JStr (sort (map getRealType (elems ?s 0))))]"
    by (rule conjI)
  then show ?thesis
    by (simp add: elems_def slots_def read_dense getRealType_def ordinary_object_def)
qed

section \<open>Properties of the list predicates\<close>

lemma card_image_JStr: "card (JStr ` A) = card A"
  by (simp add: card_image inj_on_def)

text \<open>
  What the set built by \<open>allItemsHaveTheSameType\<close> holds for one slot of \<open>arr\<close>: the tag
  of its value, or \<open>undefined\<close> for a hole.
\<close>

lemma allItemsHaveTheSameType_eq:
  "allItemsHaveTheSameType s arr
     = (if length (elems s arr) > 0
        then card ((\<lambda>x. read_slot (map_option (\<lambda>v. JStr (getType v)) x)) ` set (slots s arr)) = 1
        else True)"
  by (simp add: allItemsHaveTheSameType_def getTypesOfItems_eq elems_append_new image_image)



lemma everyItemHasAUniqueRealType_eq:
  "everyItemHasAUniqueRealType s arr
     = (card (set (map getRealType (elems s arr))) = length (elems s arr))"
proof (cases "length (elems s arr) > 0")
  case True
  then have a: "arr < length s" by (auto simp: elems_def slots_def split: if_splits)
  have m: "map (\<lambda>v. JStr (getRealType v)) xs = map JStr (map getRealType xs)" for xs by simp
  show ?thesis using True
    by (simp add: everyItemHasAUniqueRealType_def getRealTypesOfItems_eq elems_append_new
        elems_append_old [OF a] m read_dense card_image_JStr del: map_map)
next
  case False
  then show ?thesis by (simp add: everyItemHasAUniqueRealType_def)
qed






text \<open>
  Claim C7. On the empty array \<open>allItemsHaveTheSameType\<close> and
  \<open>everyItemHasAUniqueRealType\<close> are true and \<open>countRealTypes\<close> returns the empty
  list; \<open>countRealTypes\<close> of \<open>null\<close> and of \<open>undefined\<close> returns the empty list too.
\<close>

theorem empty_inputs:
  "(elems s arr = [] \<longrightarrow>
      allItemsHaveTheSameType s arr \<and>
      everyItemHasAUniqueRealType s arr \<and>
      fst (countRealTypes s (JArray arr)) = Some []) \<and>
   fst (countRealTypes s JNull) = Some [] \<and>
   fst (countRealTypes s JUndefined) = Some []"
  by (simp add: allItemsHaveTheSameType_eq everyItemHasAUniqueRealType_eq countRealTypes_array)
    (simp add: countRealTypes_def)

theorem empty_inputs_witness:
  "elems [[]] 0 = [] \<and>
   allItemsHaveTheSameType [[]] 0 \<and>
   everyItemHasAUniqueRealType [[]] 0 \<and>
   fst (countRealTypes [[]] (JArray 0)) = Some []"
proof -
  have e: "elems [[]] 0 = []" by (simp add: elems_def slots_def)
  show ?thesis using empty_inputs [of "[[]]" 0] e by blast
qed

section \<open>Properties of the equality helper\<close>

declare areEqual.simps [simp del]

lemma every_from_True_iff:
  "every_from k f xs = Some True
   \<longleftrightarrow> (\<forall>i < length xs. \<forall>v. xs ! i = Some v \<longrightarrow> f v (k + i) = Some True)"
proof (induction xs arbitrary: k)
  case Nil
  then show ?case by simp
next
  case (Cons x xs)
  show ?case
  proof (cases x)
    case None
    then show ?thesis using Cons.IH [of "Suc k"] by (simp add: All_less_Suc2)
  next
    case (Some v)
    then show ?thesis using Cons.IH [of "Suc k"]
      by (auto simp: All_less_Suc2 split: option.splits bool.splits)
  qed
qed

lemma every_True_iff:
  "every f xs = Some True \<longleftrightarrow> (\<forall>i < length xs. \<forall>v. xs ! i = Some v \<longrightarrow> f v i = Some True)"
  by (simp add: every_def every_from_True_iff)

lemma every_from_returns_on:
  "(\<And>i v. i < length xs \<Longrightarrow> xs ! i = Some v \<Longrightarrow> f v (k + i) \<noteq> None)
   \<Longrightarrow> every_from k f xs \<noteq> None"
proof (induction xs arbitrary: k)
  case Nil
  then show ?case by simp
next
  case (Cons x xs)
  have rest: "every_from (Suc k) f xs \<noteq> None"
  proof (rule Cons.IH)
    fix i v assume "i < length xs" and "xs ! i = Some v"
    then show "f v (Suc k + i) \<noteq> None" using Cons.prems [of "Suc i" v] by simp
  qed
  show ?case
  proof (cases x)
    case None
    then show ?thesis using rest by simp
  next
    case (Some v)
    have "f v k \<noteq> None" using Cons.prems [of 0 v] Some by simp
    then obtain r where "f v k = Some r" by auto
    then show ?thesis using Some rest by (cases r) simp_all
  qed
qed

lemma every_from_transfer:
  "every_from k f xs = Some r \<Longrightarrow> (\<And>v j r'. f v j = Some r' \<Longrightarrow> g v j = Some r')
   \<Longrightarrow> every_from k g xs = Some r"
proof (induction xs arbitrary: k)
  case Nil
  then show ?case by simp
next
  case (Cons x xs)
  show ?case
  proof (cases x)
    case None
    then show ?thesis using Cons by simp
  next
    case (Some v)
    show ?thesis
    proof (cases "f v k")
      case None
      with Some Cons.prems(1) show ?thesis by simp
    next
      case fv: (Some r')
      then have g: "g v k = Some r'" using Cons.prems(2) by simp
      show ?thesis
      proof (cases r')
        case True
        with fv Some Cons.prems(1) have "every_from (Suc k) f xs = Some r" by simp
        then have "every_from (Suc k) g xs = Some r" using Cons.IH Cons.prems(2) by simp
        with g True Some show ?thesis by simp
      next
        case False
        with fv Some Cons.prems(1) g show ?thesis by simp
      qed
    qed
  qed
qed

lemma length_arr_slots: "length (arr_slots s a) = length (arr_elems s a)"
  by (cases a) (simp_all add: elems_def)

lemma arr_elems_nth:
  "i < length (arr_slots s a) \<Longrightarrow> arr_elems s a ! i = read_slot (arr_slots s a ! i)"
  by (cases a) (simp_all add: elems_def)

lemma areEqual_Suc: "areEqual n s a b = Some r \<Longrightarrow> areEqual (Suc n) s a b = Some r"
proof (induction n arbitrary: a b r)
  case 0
  then show ?case by (simp add: areEqual.simps)
next
  case (Suc n)
  show ?case
  proof (cases "isArray a \<and> isArray b \<and> length (arr_elems s a) = length (arr_elems s b)")
    case True
    then have "every (\<lambda>element index. areEqual n s element (index_js (arr_elems s b) index))
                (arr_slots s a) = Some r"
      using Suc.prems by (simp add: areEqual.simps)
    then have "every (\<lambda>element index. areEqual (Suc n) s element (index_js (arr_elems s b) index))
                (arr_slots s a) = Some r"
      unfolding every_def by (rule every_from_transfer) (rule Suc.IH)
    with True show ?thesis by (simp add: areEqual.simps(2) [of "Suc n"])
  next
    case False
    with Suc.prems show ?thesis by (auto simp: areEqual.simps split: if_splits)
  qed
qed

lemma areEqual_fuel: "areEqual n s a b = Some r \<Longrightarrow> n \<le> m \<Longrightarrow> areEqual m s a b = Some r"
  by (induction m) (auto simp: le_Suc_eq dest: areEqual_Suc)

lemma areEqual_deterministic:
  assumes "areEqual n s a b = Some r" and "areEqual m s a b = Some r'"
  shows "r = r'"
proof -
  have "areEqual (max n m) s a b = Some r" using assms(1) by (rule areEqual_fuel) simp
  moreover have "areEqual (max n m) s a b = Some r'" using assms(2) by (rule areEqual_fuel) simp
  ultimately show ?thesis by simp
qed

lemma areEqual_arrays_True:
  assumes "isArray a" and "isArray b"
  shows "areEqual (Suc n) s a b = Some True \<longleftrightarrow>
         length (arr_elems s a) = length (arr_elems s b) \<and>
         (\<forall>i < length (arr_elems s a). arr_slots s a ! i \<noteq> None \<longrightarrow>
            areEqual n s (arr_elems s a ! i) (arr_elems s b ! i) = Some True)"
proof (cases "length (arr_elems s a) = length (arr_elems s b)")
  case True
  have "areEqual (Suc n) s a b =
        every (\<lambda>element index. areEqual n s element (index_js (arr_elems s b) index))
          (arr_slots s a)"
    using assms True by (simp add: areEqual.simps)
  also have "\<dots> = Some True \<longleftrightarrow>
     (\<forall>i < length (arr_slots s a). \<forall>v. arr_slots s a ! i = Some v \<longrightarrow>
        areEqual n s v (index_js (arr_elems s b) i) = Some True)"
    by (rule every_True_iff)
  also have "\<dots> \<longleftrightarrow>
     (\<forall>i < length (arr_elems s a). arr_slots s a ! i \<noteq> None \<longrightarrow>
        areEqual n s (arr_elems s a ! i) (arr_elems s b ! i) = Some True)"
    using True by (auto simp: index_js_def length_arr_slots arr_elems_nth)
  finally show ?thesis using True by simp
next
  case False
  with assms show ?thesis by (simp add: areEqual.simps)
qed




lemma nested_within_not_array: "\<not> isArray v \<Longrightarrow> nested_within n s v"
  by (cases n; cases v) simp_all

lemma areEqual_returns:
  "nested_within n s a \<or> nested_within n s b \<Longrightarrow> areEqual (Suc n) s a b \<noteq> None"
proof (induction n arbitrary: a b)
  case 0
  then show ?case by (auto simp: areEqual.simps)
next
  case (Suc n)
  show ?case
  proof (cases "isArray a \<and> isArray b \<and> length (arr_elems s a) = length (arr_elems s b)")
    case True
    have "every_from 0 (\<lambda>element index. areEqual (Suc n) s element (index_js (arr_elems s b) index))
            (arr_slots s a) \<noteq> None"
    proof (rule every_from_returns_on)
      fix i v assume i: "i < length (arr_slots s a)" and v: "arr_slots s a ! i = Some v"
      have ea: "arr_elems s a ! i = v" using i v by (simp add: arr_elems_nth)
      have i': "i < length (arr_elems s a)" using i by (simp add: length_arr_slots)
      have "nested_within n s (arr_elems s a ! i) \<or> nested_within n s (arr_elems s b ! i)"
        using Suc.prems i' True by (auto simp: list_all_length)
      then have "areEqual (Suc n) s (arr_elems s a ! i) (arr_elems s b ! i) \<noteq> None"
        by (rule Suc.IH)
      then show "areEqual (Suc n) s v (index_js (arr_elems s b) (0 + i)) \<noteq> None"
        using ea i' True by (simp add: index_js_def)
    qed
    with True show ?thesis by (simp add: areEqual.simps(2) [of "Suc n"] every_def)
  next
    case False
    then show ?thesis by (auto simp: areEqual.simps)
  qed
qed






lemma areEqual_NaN_never_True:
  assumes "JNum NaN \<in> set (elems s a)"
  shows "areEqual m s (JArray a) (JArray a) \<noteq> Some True"
proof (cases m)
  case 0
  then show ?thesis by (simp add: areEqual.simps)
next
  case (Suc n)
  from assms obtain i where i: "i < length (elems s a)" and nan: "elems s a ! i = JNum NaN"
    by (auto simp: in_set_conv_nth)
  have "slots s a ! i \<noteq> None"
  proof
    assume "slots s a ! i = None"
    then have "elems s a ! i = JUndefined" using i by (simp add: elems_def)
    with nan show False by simp
  qed
  moreover have "areEqual n s (JNum NaN) (JNum NaN) \<noteq> Some True"
    by (cases n) (simp_all add: areEqual.simps)
  ultimately have "\<not> (\<forall>i < length (elems s a). slots s a ! i \<noteq> None \<longrightarrow>
               areEqual n s (elems s a ! i) (elems s a ! i) = Some True)"
    using i nan by auto
  then show ?thesis
    using areEqual_arrays_True [of "JArray a" "JArray a" n s] Suc by simp
qed

text \<open>
  Claim C10. \<open>areEqual\<close> is not reflexive. For \<open>a = [NaN]\<close>, \<open>areEqual(a, a)\<close> is
  false although \<open>a === a\<close>. In general \<open>areEqual(a, a)\<close> is never true of an array
  that holds NaN at some index, and it is false whenever the call returns, as it does on
  every array nested within some depth.
\<close>

theorem areEqual_not_reflexive:
  "areEqual (Suc (Suc n)) [dense [JNum NaN]] (JArray 0) (JArray 0) = Some False \<and>
   strict_eq (JArray 0) (JArray 0) = True \<and>
   (JNum NaN \<in> set (elems s a) \<longrightarrow> areEqual m s (JArray a) (JArray a) \<noteq> Some True) \<and>
   (JNum NaN \<in> set (elems s a) \<and> nested_within k s (JArray a)
      \<longrightarrow> areEqual (Suc k) s (JArray a) (JArray a) = Some False)"
proof (intro conjI impI)
  show "areEqual (Suc (Suc n)) [dense [JNum NaN]] (JArray 0) (JArray 0) = Some False"
    by (simp add: areEqual.simps elems_def slots_def dense_def index_js_def every_def)
  show "strict_eq (JArray 0) (JArray 0) = True" by simp
next
  assume "JNum NaN \<in> set (elems s a)"
  then show "areEqual m s (JArray a) (JArray a) \<noteq> Some True" by (rule areEqual_NaN_never_True)
next
  assume h: "JNum NaN \<in> set (elems s a) \<and> nested_within k s (JArray a)"
  then have "areEqual (Suc k) s (JArray a) (JArray a) \<noteq> None"
    using areEqual_returns [of k s "JArray a" "JArray a"] by blast
  moreover have "areEqual (Suc k) s (JArray a) (JArray a) \<noteq> Some True"
    using h areEqual_NaN_never_True by blast
  ultimately show "areEqual (Suc k) s (JArray a) (JArray a) = Some False" by auto
qed

theorem areEqual_not_reflexive_witness:
  "JNum NaN \<in> set (elems [dense [JNum (Finite 1), JNum NaN]] 0) \<and>
   nested_within 1 [dense [JNum (Finite 1), JNum NaN]] (JArray 0) \<and>
   areEqual 2 [dense [JNum (Finite 1), JNum NaN]] (JArray 0) (JArray 0) = Some False"
proof -
  let ?s = "[dense [JNum (Finite 1), JNum NaN]]"
  have m: "JNum NaN \<in> set (elems ?s 0)" by (simp add: elems_def slots_def dense_def)
  have nw: "nested_within (Suc 0) ?s (JArray 0)" by (simp add: elems_def slots_def dense_def)
  have "areEqual (Suc (Suc 0)) ?s (JArray 0) (JArray 0) = Some False"
    using areEqual_not_reflexive [of 0 ?s 0 0 "Suc 0"] m nw by blast
  then show ?thesis using m nw by (simp add: eval_nat_numeral)
qed

end
